theory Spec2Isabelle
  imports Main "HOL-Library.Sublist" "HOL-Library.Char_ord" "HOL-Library.List_Lexorder"
begin

section \<open>Strings\<close>

text \<open>
  A Python \<open>str\<close> is modelled as a list of code points below 256 (\<open>char\<close>).
  \<open>is_space\<close> is \<open>str.isspace\<close> on one character, which is also the class \<open>\s\<close>
  of the \<open>re\<close> module for \<open>str\<close> patterns; \<open>is_word\<close> is the class \<open>\w\<close>
  (alphanumeric or underscore).
\<close>

definition is_space :: "char \<Rightarrow> bool" where
  "is_space c = (let n = (of_char c :: nat) in
     (9 \<le> n \<and> n \<le> 13) \<or> (28 \<le> n \<and> n \<le> 32) \<or> n = 133 \<or> n = 160)"

definition is_word :: "char \<Rightarrow> bool" where
  "is_word c = (let n = (of_char c :: nat) in
     (48 \<le> n \<and> n \<le> 57) \<or> (65 \<le> n \<and> n \<le> 90) \<or> n = 95 \<or> (97 \<le> n \<and> n \<le> 122)
     \<or> n = 170 \<or> n = 178 \<or> n = 179 \<or> n = 181 \<or> n = 185 \<or> n = 186
     \<or> (188 \<le> n \<and> n \<le> 190) \<or> (192 \<le> n \<and> n \<le> 214) \<or> (216 \<le> n \<and> n \<le> 246)
     \<or> 248 \<le> n)"

definition lstrip :: "string \<Rightarrow> string" where
  "lstrip s = dropWhile is_space s"

definition rstrip :: "string \<Rightarrow> string" where
  "rstrip s = rev (dropWhile is_space (rev s))"

definition strip :: "string \<Rightarrow> string" where
  "strip s = rstrip (lstrip s)"

text \<open>\<open>sep.join(xs)\<close>.\<close>

fun join :: "string \<Rightarrow> string list \<Rightarrow> string" where
  "join sep [] = []"
| "join sep [x] = x"
| "join sep (x # y # ys) = x @ sep @ join sep (y # ys)"

text \<open>\<open>s.split(c)\<close> for a one-character separator: never the empty list.\<close>

fun split :: "char \<Rightarrow> string \<Rightarrow> string list" where
  "split c [] = [[]]"
| "split c (x # xs) =
     (if x = c then [] # split c xs
      else (case split c xs of [] \<Rightarrow> [[x]] | l # ls \<Rightarrow> (x # l) # ls))"

text \<open>\<open>s.rfind(sub)\<close>, with \<open>None\<close> for Python's \<open>-1\<close>.\<close>

fun rfind :: "string \<Rightarrow> string \<Rightarrow> nat option" where
  "rfind [] sub = (if sub = [] then Some 0 else None)"
| "rfind (x # xs) sub =
     (case rfind xs sub of
        Some i \<Rightarrow> Some (Suc i)
      | None \<Rightarrow> if prefix sub (x # xs) then Some 0 else None)"

text \<open>\<open>str(n)\<close> for a non-negative integer.\<close>

definition digit_char :: "nat \<Rightarrow> char" where
  "digit_char d = char_of (48 + d)"

function str_of_nat :: "nat \<Rightarrow> string" where
  "str_of_nat n = (if n < 10 then [digit_char n] else str_of_nat (n div 10) @ [digit_char (n mod 10)])"
  by pat_completeness auto
termination
  by (relation "measure id") auto

declare str_of_nat.simps [simp del]

section \<open>Paths\<close>

text \<open>
  A \<open>pathlib.Path\<close> is the list of its \<open>parts\<close>; an absolute POSIX path starts with the
  part \<open>/\<close>, and the empty list is the path \<open>.\<close>.
\<close>

type_synonym path = "string list"

definition parent :: "path \<Rightarrow> path" where
  "parent p = (if p = [''/''] then p else butlast p)"

definition path_name :: "path \<Rightarrow> string" where
  "path_name p = (if p = [] \<or> p = [''/''] then [] else last p)"

text \<open>
  \<open>Path.suffix\<close> and \<open>Path.stem\<close>: the final component is cut at its last dot, unless
  that dot is its first or its last character.
\<close>

definition name_suffix :: "string \<Rightarrow> string" where
  "name_suffix n =
     (case rfind n ''.'' of
        Some i \<Rightarrow> if 0 < i \<and> i < length n - 1 then drop i n else []
      | None \<Rightarrow> [])"

definition suffix_of :: "path \<Rightarrow> string" where
  "suffix_of p = name_suffix (path_name p)"

definition stem :: "path \<Rightarrow> string" where
  "stem p =
     (let n = path_name p in
      case rfind n ''.'' of
        Some i \<Rightarrow> if 0 < i \<and> i < length n - 1 then take i n else n
      | None \<Rightarrow> n)"

text \<open>\<open>str(path)\<close>.\<close>

definition path_str :: "path \<Rightarrow> string" where
  "path_str p =
     (case p of
        [] \<Rightarrow> ''.''
      | a # rest \<Rightarrow> if a = ''/'' then ''/'' @ join ''/'' rest else join ''/'' p)"

section \<open>Errors, processes and the environment\<close>

datatype error =
    SystemExit int
  | FileNotFoundError
  | ValueError
  | NameError string

record proc =
  returncode :: int
  stdout :: string
  stderr :: string

text \<open>
  What the scripts read from outside: the location of the script, the working directory,
  the file system, and the executables on the search path with what they return for a
  command line. \<open>read_text\<close> is \<open>Inl\<close> of the exception's text where reading the file
  raises.
\<close>

record env =
  script_dir :: path
  cwd :: path
  path_exists :: "path \<Rightarrow> bool"
  is_file :: "path \<Rightarrow> bool"
  is_dir :: "path \<Rightarrow> bool"
  rglob :: "path \<Rightarrow> path list"
  listdir :: "path \<Rightarrow> string list"
  read_text :: "path \<Rightarrow> string + string"
  on_path :: "string \<Rightarrow> bool"
  run_proc :: "string list \<Rightarrow> proc"

text \<open>
  What a run leaves behind: the lines printed, the command lines of the processes it
  started, and the files it wrote, each in order. Printing, writing a file and creating the
  output directory always succeed in the model.
\<close>

record world =
  printed :: "string list"
  invoked :: "string list list"
  written :: "(path \<times> string) list"

definition world0 :: world where
  "world0 = \<lparr>printed = [], invoked = [], written = []\<rparr>"

definition print :: "world \<Rightarrow> string \<Rightarrow> world" where
  "print w s = w\<lparr>printed := printed w @ [s]\<rparr>"

definition write_text :: "world \<Rightarrow> path \<Rightarrow> string \<Rightarrow> world" where
  "write_text w p s = w\<lparr>written := written w @ [(p, s)]\<rparr>"

text \<open>\<open>subprocess.run(argv, capture_output=True, text=True)\<close>.\<close>

definition subprocess_run :: "env \<Rightarrow> world \<Rightarrow> string list \<Rightarrow> (error + proc) \<times> world" where
  "subprocess_run e w argv =
     (if on_path e (hd argv) then (Inr (run_proc e argv), w\<lparr>invoked := invoked w @ [argv]\<rparr>)
      else (Inl FileNotFoundError, w))"

text \<open>The status the process ends with under \<open>sys.exit(main())\<close>.\<close>

fun exit_status :: "error + int \<Rightarrow> int" where
  "exit_status (Inr n) = n"
| "exit_status (Inl (SystemExit n)) = n"
| "exit_status (Inl _) = 1"

section \<open>The project locator (both scripts)\<close>

text \<open>
  \<open>find_project_root\<close>: the loop runs while \<open>current != current.parent\<close>; \<open>walk_up\<close>
  is that loop, with \<open>None\<close> when it ends without returning.
\<close>

function walk_up :: "env \<Rightarrow> path \<Rightarrow> path option" where
  "walk_up e current =
     (if current \<noteq> parent current then
        (if path_exists e (current @ [''CMakeLists.txt'']) then Some current
         else walk_up e (parent current))
      else None)"
  by pat_completeness auto
termination
proof (relation "measure (\<lambda>(e, p). length p)")
  show "wf (measure (\<lambda>(e, p). length p))" by simp
next
  fix e :: env and current :: path
  assume "current \<noteq> parent current"
  then have "current \<noteq> []" "parent current = butlast current"
    by (auto simp: parent_def split: if_splits)
  then show "((e, parent current), (e, current)) \<in> measure (\<lambda>(e, p). length p)"
    by simp
qed

declare walk_up.simps [simp del]

definition find_project_root :: "env \<Rightarrow> path" where
  "find_project_root e =
     (case walk_up e (script_dir e) of Some d \<Rightarrow> d | None \<Rightarrow> cwd e)"

section \<open>The formatter driver (clang\_format\_all.py)\<close>

definition CPP_EXTENSIONS :: "string set" where
  "CPP_EXTENSIONS = {''.cpp'', ''.hpp'', ''.h'', ''.cc'', ''.cxx'', ''.hxx'', ''.c''}"

definition SKIP_DIRS :: "string set" where
  "SKIP_DIRS = {''build'', ''cmake-build-debug'', ''cmake-build-release'', ''out'',
                ''.git'', ''third_party'', ''external'', ''vendor''}"

definition skipped :: "path \<Rightarrow> bool" where
  "skipped p = (\<exists>skip_dir \<in> SKIP_DIRS. skip_dir \<in> set p)"

text \<open>
  \<open>find_cpp_files\<close>: \<open>sorted\<close> on paths compares their parts, component by component.
\<close>

definition find_cpp_files :: "env \<Rightarrow> path \<Rightarrow> path list" where
  "find_cpp_files e root =
     sort (filter (\<lambda>p. \<not> skipped p \<and> is_file e p \<and> suffix_of p \<in> CPP_EXTENSIONS)
                  (rglob e root))"

text \<open>
  \<open>check_clang_format\<close>: \<open>probe\<close> is its loop over the candidate names; only
  \<open>FileNotFoundError\<close> is caught.
\<close>

definition CLANG_FORMAT_NAMES :: "string list" where
  "CLANG_FORMAT_NAMES = [''clang-format'', ''clang-format-17'', ''clang-format-16'',
                         ''clang-format-15'', ''clang-format-14'']"

fun probe :: "env \<Rightarrow> world \<Rightarrow> string list \<Rightarrow> (error + string option) \<times> world" where
  "probe e w [] = (Inr None, w)"
| "probe e w (name # names) =
     (case subprocess_run e w [name, ''--version''] of
        (Inr result, w') \<Rightarrow>
          if returncode result = 0 then (Inr (Some name), w') else probe e w' names
      | (Inl FileNotFoundError, w') \<Rightarrow> probe e w' names
      | (Inl err, w') \<Rightarrow> (Inl err, w'))"

definition check_clang_format :: "env \<Rightarrow> world \<Rightarrow> (error + string) \<times> world" where
  "check_clang_format e w =
     (case probe e w CLANG_FORMAT_NAMES of
        (Inr (Some name), w') \<Rightarrow> (Inr name, w')
      | (Inr None, w') \<Rightarrow>
          (Inl (SystemExit 1),
           print (print (print (print w'
             ''Error: clang-format not found. Please install clang-format.'')
             ''  Ubuntu/Debian: sudo apt install clang-format'')
             ''  macOS:         brew install clang-format'')
             ''  Windows:       choco install llvm'')
      | (Inl err, w') \<Rightarrow> (Inl err, w'))"

definition check_argv :: "string \<Rightarrow> path \<Rightarrow> string list" where
  "check_argv clang_format filepath =
     [clang_format, ''--style=file'', ''--dry-run'', ''--Werror'', path_str filepath]"

definition fix_argv :: "string \<Rightarrow> path \<Rightarrow> string list" where
  "fix_argv clang_format filepath = [clang_format, ''--style=file'', ''-i'', path_str filepath]"

definition format_file ::
  "env \<Rightarrow> world \<Rightarrow> string \<Rightarrow> path \<Rightarrow> bool \<Rightarrow> bool \<Rightarrow> (error + bool) \<times> world" where
  "format_file e w clang_format filepath check_only verbose =
     (let w1 = (if verbose then print w (''Processing: '' @ path_str filepath) else w) in
      if check_only then
        (case subprocess_run e w1 (check_argv clang_format filepath) of
           (Inl err, w2) \<Rightarrow> (Inl err, w2)
         | (Inr result, w2) \<Rightarrow>
             if returncode result \<noteq> 0
             then (Inr True, print w2 (''Needs formatting: '' @ path_str filepath))
             else (Inr False, w2))
      else
        (case subprocess_run e w1 (fix_argv clang_format filepath) of
           (Inl err, w2) \<Rightarrow> (Inl err, w2)
         | (Inr result, w2) \<Rightarrow>
             if returncode result \<noteq> 0
             then (Inr False,
                   print w2 (''Error formatting '' @ path_str filepath @ '': '' @ stderr result))
             else (Inr True, w2)))"

record args =
  check :: bool
  verbose :: bool
  dry_run :: bool
  paths :: "path list"

text \<open>The loop of \<open>main\<close> over the positional arguments (taken when there is one).\<close>

fun expand_paths :: "env \<Rightarrow> path list \<Rightarrow> path list" where
  "expand_paths e [] = []"
| "expand_paths e (p # ps) =
     (if is_file e p then p # expand_paths e ps
      else if is_dir e p then find_cpp_files e p @ expand_paths e ps
      else expand_paths e ps)"

definition select_files :: "env \<Rightarrow> args \<Rightarrow> path \<Rightarrow> path list" where
  "select_files e a project_root =
     (if paths a \<noteq> [] then expand_paths e (paths a) else find_cpp_files e project_root)"

text \<open>\<open>f.relative_to(project_root)\<close> raises \<open>ValueError\<close> unless the root's parts lead \<open>f\<close>'s.\<close>

definition relative_to :: "path \<Rightarrow> path \<Rightarrow> error + path" where
  "relative_to f root = (if prefix root f then Inr (drop (length root) f) else Inl ValueError)"

fun print_candidates :: "world \<Rightarrow> path \<Rightarrow> path list \<Rightarrow> (error + unit) \<times> world" where
  "print_candidates w root [] = (Inr (), w)"
| "print_candidates w root (f # fs) =
     (case relative_to f root of
        Inl err \<Rightarrow> (Inl err, w)
      | Inr rel \<Rightarrow> print_candidates (print w (''  '' @ path_str rel)) root fs)"

text \<open>The loop of \<open>main\<close> over the files, counting in \<open>needs_formatting\<close>.\<close>

fun format_all ::
  "env \<Rightarrow> world \<Rightarrow> string \<Rightarrow> bool \<Rightarrow> bool \<Rightarrow> path list \<Rightarrow> nat \<Rightarrow> (error + nat) \<times> world" where
  "format_all e w clang_format chk vb [] needs_formatting = (Inr needs_formatting, w)"
| "format_all e w clang_format chk vb (filepath # fs) needs_formatting =
     (case format_file e w clang_format filepath chk vb of
        (Inl err, w') \<Rightarrow> (Inl err, w')
      | (Inr changed, w') \<Rightarrow>
          format_all e w' clang_format chk vb fs
            (if changed then needs_formatting + 1 else needs_formatting))"

text \<open>\<open>main\<close> from the selection of the files on (lines 132 to 167).\<close>

definition process_files ::
  "env \<Rightarrow> args \<Rightarrow> path \<Rightarrow> string \<Rightarrow> world \<Rightarrow> (error + int) \<times> world" where
  "process_files e a project_root clang_format w4 =
     (let cpp_files = select_files e a project_root;
          w5 = print w4 (''Found '' @ str_of_nat (length cpp_files) @ '' C++ files'')
      in if dry_run a then
           (case print_candidates (print w5 ''\<newline>Files that would be formatted:'')
                   project_root cpp_files of
              (Inl err, w6) \<Rightarrow> (Inl err, w6)
            | (Inr u, w6) \<Rightarrow> (Inr 0, w6))
         else
           (case format_all e w5 clang_format (check a) (verbose a) cpp_files 0 of
              (Inl err, w6) \<Rightarrow> (Inl err, w6)
            | (Inr needs_formatting, w6) \<Rightarrow>
                if check a then
                  (if needs_formatting > 0 then
                     (Inr 1,
                      print (print w6 (''\<newline>'' @ str_of_nat needs_formatting
                                         @ '' file(s) need formatting.''))
                            ''Run 'python tools/clang_format_all.py' to fix.'')
                   else (Inr 0, print w6 ''\<newline>All files are properly formatted!''))
                else
                  (Inr 0, print w6 (''\<newline>Formatted '' @ str_of_nat (length cpp_files)
                                      @ '' files.''))))"

text \<open>\<open>main\<close> up to there: the project root, the probe and the version line.\<close>

definition main :: "env \<Rightarrow> args \<Rightarrow> (error + int) \<times> world" where
  "main e a =
     (let project_root = find_project_root e;
          w1 = print world0 (''Project root: '' @ path_str project_root)
      in case check_clang_format e w1 of
           (Inl err, w2) \<Rightarrow> (Inl err, w2)
         | (Inr clang_format, w2) \<Rightarrow>
             (case subprocess_run e w2 [clang_format, ''--version''] of
                (Inl err, w3) \<Rightarrow> (Inl err, w3)
              | (Inr version, w3) \<Rightarrow>
                  process_files e a project_root clang_format
                    (print w3 (''Using: '' @ strip (stdout version)))))"

section \<open>Regular expressions\<close>

text \<open>
  The patterns of generate\_docs.py, as data, and the backtracking semantics of the \<open>re\<close>
  module for them: \<open>rmatch r st\<close> lists the states in which a match of \<open>r\<close> begun in state
  \<open>st\<close> can end, in the order in which the matcher tries them (a greedy repetition tries the
  longest run first, a lazy one the shortest). A state is the position in the subject, the
  text from there on, and the groups captured so far. Repetition is of character classes
  only, which is all the patterns of the program use.
\<close>

datatype cclass = CSpace | CWord | CWordColon | CAny

fun in_class :: "cclass \<Rightarrow> char \<Rightarrow> bool" where
  "in_class CSpace c = is_space c"
| "in_class CWord c = is_word c"
| "in_class CWordColon c = (is_word c \<or> c = CHR '':'')"
| "in_class CAny c = True"

datatype regex =
    Lit string
  | Rep cclass nat "nat option" bool
  | Alt regex regex
  | Seq regex regex
  | Group nat regex
  | Opt regex
  | Bol
  | Eol

record mstate =
  pos :: nat
  rest :: string
  groups :: "nat \<rightharpoonup> string"

definition advance :: "nat \<Rightarrow> mstate \<Rightarrow> mstate" where
  "advance n st = st\<lparr>pos := pos st + n, rest := drop n (rest st)\<rparr>"

fun rmatch :: "regex \<Rightarrow> mstate \<Rightarrow> mstate list" where
  "rmatch (Lit s) st = (if prefix s (rest st) then [advance (length s) st] else [])"
| "rmatch (Rep cc lo hi greedy) st =
     (let avail = length (takeWhile (in_class cc) (rest st));
          top = (case hi of None \<Rightarrow> avail | Some h \<Rightarrow> min h avail);
          counts = [lo..<Suc top]
      in map (\<lambda>k. advance k st) (if greedy then rev counts else counts))"
| "rmatch (Alt a b) st = rmatch a st @ rmatch b st"
| "rmatch (Seq a b) st = concat (map (rmatch b) (rmatch a st))"
| "rmatch (Group n r) st =
     map (\<lambda>st'. st'\<lparr>groups := (groups st')(n \<mapsto> take (pos st' - pos st) (rest st))\<rparr>)
         (rmatch r st)"
| "rmatch (Opt r) st = rmatch r st @ [st]"
| "rmatch Bol st = (if pos st = 0 then [st] else [])"
| "rmatch Eol st = (if rest st = [] \<or> rest st = ''\<newline>'' then [st] else [])"

fun seqs :: "regex list \<Rightarrow> regex" where
  "seqs [] = Lit []"
| "seqs [r] = r"
| "seqs (r # rs) = Seq r (seqs rs)"

definition match_at :: "regex \<Rightarrow> nat \<Rightarrow> string \<Rightarrow> mstate option" where
  "match_at r p s =
     (case rmatch r \<lparr>pos = p, rest = s, groups = Map.empty\<rparr> of
        [] \<Rightarrow> None
      | st # sts \<Rightarrow> Some st)"

text \<open>
  \<open>re.search\<close>: the first position at which the pattern matches, with the state the match
  ends in. \<open>search_from r p s\<close> searches the text \<open>s\<close> that begins at position \<open>p\<close>.
\<close>

fun search_from :: "regex \<Rightarrow> nat \<Rightarrow> string \<Rightarrow> (nat \<times> mstate) option" where
  "search_from r p [] = (case match_at r p [] of None \<Rightarrow> None | Some st \<Rightarrow> Some (p, st))"
| "search_from r p (c # cs) =
     (case match_at r p (c # cs) of
        None \<Rightarrow> search_from r (Suc p) cs
      | Some st \<Rightarrow> Some (p, st))"

definition re_search :: "regex \<Rightarrow> string \<Rightarrow> (nat \<times> mstate) option" where
  "re_search r s = search_from r 0 s"

text \<open>
  \<open>pattern.finditer\<close>: the matches from left to right, each search starting where the last
  match ended. After a match, \<open>skip\<close> counts the characters of it still to be passed.
\<close>

fun finditer_from :: "regex \<Rightarrow> nat \<Rightarrow> nat \<Rightarrow> string \<Rightarrow> (nat \<times> mstate) list" where
  "finditer_from r p skip [] =
     (if skip = 0 then (case match_at r p [] of None \<Rightarrow> [] | Some st \<Rightarrow> [(p, st)]) else [])"
| "finditer_from r p skip (c # cs) =
     (if 0 < skip then finditer_from r (Suc p) (skip - 1) cs
      else (case match_at r p (c # cs) of
              None \<Rightarrow> finditer_from r (Suc p) 0 cs
            | Some st \<Rightarrow> (p, st) # finditer_from r (Suc p) (pos st - p - 1) cs))"

definition finditer :: "regex \<Rightarrow> string \<Rightarrow> (nat \<times> mstate) list" where
  "finditer r s = finditer_from r 0 0 s"

text \<open>\<open>re.sub(pattern, '', s)\<close>: the text with every match of the pattern cut out.\<close>

fun cut_from :: "regex \<Rightarrow> nat \<Rightarrow> nat \<Rightarrow> string \<Rightarrow> string" where
  "cut_from r p skip [] = []"
| "cut_from r p skip (c # cs) =
     (if 0 < skip then cut_from r (Suc p) (skip - 1) cs
      else (case match_at r p (c # cs) of
              None \<Rightarrow> c # cut_from r (Suc p) 0 cs
            | Some st \<Rightarrow>
                if pos st = p then c # cut_from r (Suc p) 0 cs
                else cut_from r (Suc p) (pos st - p - 1) cs))"

definition re_cut :: "regex \<Rightarrow> string \<Rightarrow> string" where
  "re_cut r s = cut_from r 0 0 s"

section \<open>The doc extractor (generate\_docs.py)\<close>

record Parameter =
  p_name :: string
  p_type :: string
  p_description :: string

record Function =
  f_name :: string
  return_type :: string
  parameters :: "Parameter list"
  f_description :: string
  is_static :: bool
  is_virtual :: bool
  is_const :: bool

record Class =
  name :: string
  description :: string
  methods :: "Function list"
  base_classes :: "string list"
  is_struct :: bool

record Header =
  path :: path
  classes :: "Class list"
  h_functions :: "Function list"
  h_description :: string

text \<open>The three substitutions that clean one line of a block comment.\<close>

definition open_marker :: regex where
  "open_marker = seqs [Bol, Lit ''/**'', Rep CSpace 0 None True]"

definition close_marker :: regex where
  "close_marker = seqs [Lit ''*/'', Eol]"

definition star_marker :: regex where
  "star_marker = seqs [Bol, Rep CSpace 0 None True, Lit ''*'', Rep CSpace 0 (Some 1) True]"

definition clean_line :: "string \<Rightarrow> string" where
  "clean_line line = strip (re_cut star_marker (re_cut close_marker (re_cut open_marker line)))"

text \<open>The loop over the reversed lines, with its \<open>continue\<close> and \<open>break\<close>.\<close>

fun comment_lines :: "string list \<Rightarrow> string list \<Rightarrow> string list" where
  "comment_lines [] acc = acc"
| "comment_lines (l # ls) acc =
     (let line = strip l in
      if prefix ''///'' line then comment_lines ls (strip (drop 3 line) # acc)
      else if prefix ''//'' line then comment_lines ls acc
      else acc)"

definition line_comment :: "string \<Rightarrow> string" where
  "line_comment before = join '' '' (comment_lines (rev (split CHR ''\<newline>'' before)) [])"

definition extract_doxygen_comment :: "string \<Rightarrow> nat \<Rightarrow> string" where
  "extract_doxygen_comment content p =
     (let before = rstrip (take p content) in
      if suffix ''*/'' before then
        (case rfind before ''/**'' of
           Some start \<Rightarrow>
             (let comment = strip (drop start before);
                  lines = split CHR ''\<newline>'' comment;
                  cleaned = filter (\<lambda>line. line \<noteq> []) (map clean_line lines)
              in join '' '' cleaned)
         | None \<Rightarrow> line_comment before)
      else line_comment before)"

definition file_comment_pattern :: regex where
  "file_comment_pattern = seqs [Lit ''/**'', Rep CAny 0 None False, Lit ''*/'']"

definition class_pattern :: regex where
  "class_pattern =
     seqs [Group 1 (Alt (Lit ''class'') (Lit ''struct'')),
           Rep CSpace 1 None True,
           Group 2 (Rep CWord 1 None True),
           Opt (seqs [Rep CSpace 0 None True, Lit '':'', Rep CSpace 0 None True,
                      Opt (Alt (Lit ''public'') (Alt (Lit ''protected'') (Lit ''private''))),
                      Rep CSpace 0 None True,
                      Group 3 (Rep CWordColon 1 None True)]),
           Rep CSpace 0 None True,
           Lit ''{'']"

definition group_text :: "mstate \<Rightarrow> nat \<Rightarrow> string" where
  "group_text st n = (case groups st n of Some s \<Rightarrow> s | None \<Rightarrow> [])"

text \<open>The body of the loop of \<open>parse_header\<close> over the matches of the class pattern.\<close>

definition class_of_match :: "string \<Rightarrow> nat \<times> mstate \<Rightarrow> Class" where
  "class_of_match content m =
     (let st = snd m;
          base_class = groups st 3
      in \<lparr>name = group_text st 2,
          description = extract_doxygen_comment content (fst m),
          methods = [],
          base_classes = (case base_class of
                            Some b \<Rightarrow> if b \<noteq> [] then [b] else []
                          | None \<Rightarrow> []),
          is_struct = (groups st 1 = Some ''struct'')\<rparr>)"

text \<open>
  \<open>parse_header\<close> once the file has been read. The function pattern that the source compiles
  last is applied to nothing, and the header's \<open>functions\<close> and every \<open>methods\<close> stay as constructed.
\<close>

definition parse_content :: "path \<Rightarrow> string \<Rightarrow> Header" where
  "parse_content filepath content =
     \<lparr>path = filepath,
      classes = map (class_of_match content) (finditer class_pattern content),
      h_functions = [],
      h_description =
        (case re_search file_comment_pattern (take 500 content) of
           Some file_comment \<Rightarrow> extract_doxygen_comment content (pos (snd file_comment))
         | None \<Rightarrow> [])\<rparr>"

definition parse_header :: "env \<Rightarrow> world \<Rightarrow> path \<Rightarrow> Header \<times> world" where
  "parse_header e w filepath =
     (case read_text e filepath of
        Inl msg \<Rightarrow>
          (\<lparr>path = filepath, classes = [], h_functions = [], h_description = []\<rparr>,
           print w (''Warning: Could not read '' @ path_str filepath @ '': '' @ msg))
      | Inr content \<Rightarrow> (parse_content filepath content, w))"

definition method_lines :: "Function \<Rightarrow> string list" where
  "method_lines method =
     (let params = join '', '' (map (\<lambda>p. p_type p @ '' '' @ p_name p) (parameters method));
          signature = ''`'' @ return_type method @ '' '' @ f_name method @ ''('' @ params @ '')`'';
          signature' = (if is_const method then signature @ '' const'' else signature)
      in (''- '' @ signature') #
         (if f_description method \<noteq> [] then [''  - '' @ f_description method] else []))"

definition generate_class_doc :: "Class \<Rightarrow> string" where
  "generate_class_doc cls =
     (let kind = (if is_struct cls then ''struct'' else ''class'');
          lines = [''### `'' @ kind @ '' '' @ name cls @ ''`'', []]
            @ (if description cls \<noteq> [] then [description cls, []] else [])
            @ (if base_classes cls \<noteq> []
               then [''**Inherits from:** `'' @ join ''`, `'' (base_classes cls) @ ''`'', []]
               else [])
            @ (if methods cls \<noteq> []
               then [''#### Methods'', []] @ concat (map method_lines (methods cls)) @ [[]]
               else [])
      in join ''\<newline>'' lines)"

text \<open>\<open>include_dir.glob('*.hpp')\<close>: the entries of the directory whose name ends in \<open>.hpp\<close>.\<close>

definition glob_hpp :: "env \<Rightarrow> path \<Rightarrow> path list" where
  "glob_hpp e d = map (\<lambda>n. d @ [n]) (filter (\<lambda>n. suffix ''.hpp'' n) (listdir e d))"

text \<open>The first loop of \<open>generate_docs\<close>.\<close>

fun parse_all :: "env \<Rightarrow> world \<Rightarrow> path list \<Rightarrow> Header list \<times> world" where
  "parse_all e w [] = ([], w)"
| "parse_all e w (header_path # ps) =
     (let parsed = parse_header e (print w (''Parsing: '' @ path_name header_path)) header_path;
          others = parse_all e (snd parsed) ps
      in (fst parsed # fst others, snd others))"

definition doc_content :: "Header \<Rightarrow> string list" where
  "doc_content header =
     [''# '' @ stem (path header), [],
      ''Header: `include/Zyrnix/'' @ path_name (path header) @ ''`'', []]
     @ (if classes header \<noteq> []
        then [''## Classes'', []] @ map generate_class_doc (classes header)
        else [])"

text \<open>The second loop of \<open>generate_docs\<close>, which also grows \<open>index_lines\<close>.\<close>

fun write_pages :: "world \<Rightarrow> path \<Rightarrow> Header list \<Rightarrow> string list \<Rightarrow> string list \<times> world" where
  "write_pages w output_dir [] index_lines = (index_lines, w)"
| "write_pages w output_dir (header # hs) index_lines =
     (let name = stem (path header);
          output_file = output_dir @ [name @ ''.md''];
          w1 = write_text w output_file (join ''\<newline>'' (doc_content header));
          w2 = print w1 (''Generated: '' @ path_str output_file)
      in write_pages w2 output_dir hs (index_lines @ [''- ['' @ name @ '']('' @ name @ ''.md)'']))"

text \<open>
  The names generate\_docs.py binds: its imports, its classes and functions, and the
  parameters and local variables of \<open>generate_docs\<close>. A bare name that is not among them
  (and is no builtin) raises \<open>NameError\<close> when it is evaluated.
\<close>

definition bound_names :: "string set" where
  "bound_names = {''argparse'', ''os'', ''re'', ''sys'', ''dataclass'', ''field'', ''Path'', ''List'',
     ''Optional'', ''Dict'', ''Parameter'', ''Function'', ''Class'', ''Header'',
     ''find_project_root'', ''extract_doxygen_comment'', ''parse_header'', ''generate_class_doc'',
     ''generate_header_doc'', ''generate_docs'', ''main'',
     ''project_root'', ''output_dir'', ''include_dir'', ''headers'', ''header_path'',
     ''index_lines'', ''header'', ''name'', ''doc_content'', ''cls'', ''output_file'',
     ''index_file''}"

definition eval_name :: "string \<Rightarrow> error + unit" where
  "eval_name n = (if n \<in> bound_names then Inr () else Inl (NameError n))"

definition index_head :: "string list" where
  "index_head = [''# Zyrnix API Reference'', [], ''Auto-generated API documentation for Zyrnix.'',
                 [], ''## Headers'', []]"

text \<open>
  \<open>generate_docs\<close>. Between the second loop and the writing of the index the source has a
  line that holds the bare name \<open>z\<close> (line 251); it is read here as a statement of the
  function's body.
\<close>

definition generate_docs :: "env \<Rightarrow> world \<Rightarrow> path \<Rightarrow> path \<Rightarrow> (error + unit) \<times> world" where
  "generate_docs e w project_root output_dir =
     (let include_dir = project_root @ [''include'', ''Zyrnix''] in
      if \<not> path_exists e include_dir then
        (Inl (SystemExit 1),
         print w (''Error: Include directory not found: '' @ path_str include_dir))
      else
        (let parsed = parse_all e w (sort (glob_hpp e include_dir));
             pages = write_pages (snd parsed) output_dir (fst parsed) index_head
         in case eval_name ''z'' of
              Inl err \<Rightarrow> (Inl err, snd pages)
            | Inr u \<Rightarrow>
                (let index_file = output_dir @ [''index.md''];
                     w3 = write_text (snd pages) index_file (join ''\<newline>'' (fst pages))
                 in (Inr (), print w3 (''Generated: '' @ path_str index_file)))))"



section \<open>Notions used to state the properties\<close>

text \<open>A file needs formatting when the check command returns a non-zero code for it.\<close>

definition needs_fmt :: "env \<Rightarrow> string \<Rightarrow> path \<Rightarrow> bool" where
  "needs_fmt e cf f = (returncode (run_proc e (check_argv cf f)) \<noteq> 0)"

definition is_version_probe :: "string list \<Rightarrow> bool" where
  "is_version_probe argv = (\<exists>n. argv = [n, ''--version''])"

text \<open>The lines one file contributes to the output, in check mode and in fix mode.\<close>

definition check_lines :: "env \<Rightarrow> string \<Rightarrow> bool \<Rightarrow> path \<Rightarrow> string list" where
  "check_lines e cf vb f =
     (if vb then [''Processing: '' @ path_str f] else []) @
     (if returncode (run_proc e (check_argv cf f)) \<noteq> 0
      then [''Needs formatting: '' @ path_str f] else [])"

definition fix_lines :: "env \<Rightarrow> string \<Rightarrow> bool \<Rightarrow> path \<Rightarrow> string list" where
  "fix_lines e cf vb f =
     (if vb then [''Processing: '' @ path_str f] else []) @
     (if returncode (run_proc e (fix_argv cf f)) \<noteq> 0
      then [''Error formatting '' @ path_str f @ '': '' @ stderr (run_proc e (fix_argv cf f))]
      else [])"

text \<open>The three lines every run prints once a formatter is found.\<close>

definition prelude :: "env \<Rightarrow> args \<Rightarrow> string \<Rightarrow> string list" where
  "prelude e a cf =
     [''Project root: '' @ path_str (find_project_root e),
      ''Using: '' @ strip (stdout (run_proc e [cf, ''--version''])),
      ''Found '' @ str_of_nat (length (select_files e a (find_project_root e))) @ '' C++ files'']"

section \<open>Example environments\<close>

definition env_demo :: env where
  "env_demo = \<lparr>
     script_dir = [''/'', ''proj'', ''tools''],
     cwd = [''/'', ''home''],
     path_exists = (\<lambda>p. p = [''/'', ''proj'', ''CMakeLists.txt'']),
     is_file = (\<lambda>p. p \<in> {[''/'', ''proj'', ''src'', ''b.cpp''], [''/'', ''proj'', ''src'', ''a.h''],
                         [''/'', ''proj'', ''build'', ''gen.cpp''], [''/'', ''proj'', ''README.md''],
                         [''/'', ''proj'', ''notes.txt'']}),
     is_dir = (\<lambda>p. p \<in> {[''/'', ''proj''], [''/'', ''proj'', ''src''], [''/'', ''proj'', ''build'']}),
     rglob = (\<lambda>r. if r = [''/'', ''proj''] then
                 [[''/'', ''proj'', ''src''], [''/'', ''proj'', ''src'', ''b.cpp''],
                  [''/'', ''proj'', ''src'', ''a.h''], [''/'', ''proj'', ''build''],
                  [''/'', ''proj'', ''build'', ''gen.cpp''], [''/'', ''proj'', ''README.md'']]
               else []),
     listdir = (\<lambda>d. []),
     read_text = (\<lambda>p. Inl []),
     on_path = (\<lambda>n. n = ''clang-format''),
     run_proc = (\<lambda>argv. \<lparr>returncode =
                            (if argv = [''clang-format'', ''--version'']
                                \<or> argv = check_argv ''clang-format'' [''/'', ''proj'', ''src'', ''a.h'']
                             then 0 else 1),
                          stdout = ''clang-format version 17.0.6\<newline>'',
                          stderr = ''cannot format''\<rparr>)\<rparr>"

definition args_demo :: args where
  "args_demo = \<lparr>check = False, verbose = False, dry_run = False, paths = []\<rparr>"


text \<open>The same tree with no formatter installed and nothing under the project root.\<close>

definition env_bare :: env where
  "env_bare = env_demo\<lparr>on_path := (\<lambda>n. False), rglob := (\<lambda>r. [])\<rparr>"

text \<open>A script directly under the filesystem root, which holds the marker file.\<close>

definition env_rootmarker :: env where
  "env_rootmarker = env_demo\<lparr>script_dir := [''/'', ''tools''],
                               path_exists := (\<lambda>p. p = [''/'', ''CMakeLists.txt''])\<rparr>"

text \<open>A project with one header and one other file in its include directory.\<close>

definition env_docs :: env where
  "env_docs = env_demo\<lparr>
     path_exists := (\<lambda>p. p = [''/'', ''proj'', ''CMakeLists.txt'']
                         \<or> p = [''/'', ''proj'', ''include'', ''Zyrnix'']),
     listdir := (\<lambda>d. if d = [''/'', ''proj'', ''include'', ''Zyrnix'']
                      then [''point.hpp'', ''notes.txt''] else []),
     read_text := (\<lambda>p. if p = [''/'', ''proj'', ''include'', ''Zyrnix'', ''point.hpp'']
                        then Inr ''/// A 2D point.\<newline>struct Point : Shape {\<newline>  int x;\<newline>};\<newline>''
                        else Inl ''No such file or directory'')\<rparr>"

text \<open>The characters a pattern can pass over.\<close>

fun consumes :: "regex \<Rightarrow> char \<Rightarrow> bool" where
  "consumes (Lit s) c = (c \<in> set s)"
| "consumes (Rep cc lo hi greedy) c = in_class cc c"
| "consumes (Alt a b) c = (consumes a c \<or> consumes b c)"
| "consumes (Seq a b) c = (consumes a c \<or> consumes b c)"
| "consumes (Group n r) c = consumes r c"
| "consumes (Opt r) c = consumes r c"
| "consumes Bol c = False"
| "consumes Eol c = False"

text \<open>A line that the backward scan for line comments passes or collects.\<close>

definition comment_line :: "string \<Rightarrow> bool" where
  "comment_line l = prefix ''//'' (strip l)"

text \<open>The three comment lines of the example, with and without the last line break.\<close>

definition three_lines :: string where
  "three_lines = ''/// A 2D point.\<newline>/// A 2D point.\<newline>/// A 2D point.\<newline>''"

definition three_doc_lines :: string where
  "three_doc_lines = ''/// A 2D point.\<newline>/// A 2D point.\<newline>/// A 2D point.''"

text \<open>An environment in which every file reads as the given text.\<close>

definition env_text :: "string \<Rightarrow> env" where
  "env_text content = env_docs\<lparr>read_text := (\<lambda>p. Inr content)\<rparr>"


section \<open>The formatter driver\<close>

lemma hd_check_argv [simp]: "hd (check_argv cf f) = cf"
  by (simp add: check_argv_def)

lemma hd_fix_argv [simp]: "hd (fix_argv cf f) = cf"
  by (simp add: fix_argv_def)

lemma version_probe [simp]: "is_version_probe [n, ''--version'']"
  by (simp add: is_version_probe_def)

lemma probe_fst_indep: "fst (probe e w ns) = fst (probe e w' ns)"
  by (induction ns arbitrary: w w') (auto simp: subprocess_run_def)

lemma probe_world:
  "\<exists>vs. snd (probe e w ns) = w\<lparr>invoked := invoked w @ vs\<rparr> \<and> list_all is_version_probe vs"
proof (induction ns arbitrary: w)
  case Nil
  show ?case by (rule exI [of _ "[]"]) simp
next
  case (Cons name names)
  show ?case
  proof (cases "on_path e name")
    case False
    with Cons [of w] show ?thesis by (simp add: subprocess_run_def)
  next
    case True
    let ?w = "w\<lparr>invoked := invoked w @ [[name, ''--version'']]\<rparr>"
    show ?thesis
    proof (cases "returncode (run_proc e [name, ''--version'']) = 0")
      case True
      with \<open>on_path e name\<close> show ?thesis
        by (intro exI [of _ "[[name, ''--version'']]"]) (simp add: subprocess_run_def)
    next
      case False
      from Cons [of ?w] obtain vs where
        vs: "snd (probe e ?w names) = ?w\<lparr>invoked := invoked ?w @ vs\<rparr>"
            "list_all is_version_probe vs" by blast
      with False \<open>on_path e name\<close> show ?thesis
        by (intro exI [of _ "[name, ''--version''] # vs"]) (simp add: subprocess_run_def)
    qed
  qed
qed

lemma probe_Some:
  "fst (probe e w ns) = Inr (Some n) \<Longrightarrow>
     on_path e n \<and> returncode (run_proc e [n, ''--version'']) = 0 \<and> n \<in> set ns"
  by (induction ns arbitrary: w) (auto simp: subprocess_run_def split: if_splits)

lemma probe_not_Inl: "fst (probe e w ns) \<noteq> Inl err"
  by (induction ns arbitrary: w) (auto simp: subprocess_run_def split: if_splits)

lemma check_clang_format_fst_indep:
  "fst (check_clang_format e w) = fst (check_clang_format e w')"
  using probe_fst_indep [of e w CLANG_FORMAT_NAMES w']
  by (auto simp: check_clang_format_def split: prod.splits sum.splits option.splits)

lemma check_clang_format_found:
  assumes "fst (check_clang_format e w) = Inr cf"
  shows "on_path e cf \<and> returncode (run_proc e [cf, ''--version'']) = 0
         \<and> cf \<in> set CLANG_FORMAT_NAMES
         \<and> (\<exists>vs. snd (check_clang_format e w) = w\<lparr>invoked := invoked w @ vs\<rparr>
               \<and> list_all is_version_probe vs)"
proof -
  from assms have p: "fst (probe e w CLANG_FORMAT_NAMES) = Inr (Some cf)"
    by (auto simp: check_clang_format_def split: prod.splits sum.splits option.splits)
  then have s: "snd (check_clang_format e w) = snd (probe e w CLANG_FORMAT_NAMES)"
    by (auto simp: check_clang_format_def split: prod.splits sum.splits option.splits)
  from probe_Some [OF p] probe_world [of e w CLANG_FORMAT_NAMES] s show ?thesis by simp
qed

lemma format_all_check:
  assumes "on_path e cf"
  shows "format_all e w cf True vb fs n =
     (Inr (n + length (filter (needs_fmt e cf) fs)),
      w\<lparr>printed := printed w @ concat (map (check_lines e cf vb) fs),
        invoked := invoked w @ map (check_argv cf) fs\<rparr>)"
  using assms
  by (induction fs arbitrary: w n)
     (simp_all add: format_file_def subprocess_run_def print_def check_lines_def Let_def
        needs_fmt_def)

lemma format_all_fix:
  assumes "on_path e cf"
  shows "format_all e w cf False vb fs n =
     (Inr (n + length (filter (\<lambda>f. returncode (run_proc e (fix_argv cf f)) = 0) fs)),
      w\<lparr>printed := printed w @ concat (map (fix_lines e cf vb) fs),
        invoked := invoked w @ map (fix_argv cf) fs\<rparr>)"
  using assms
  by (induction fs arbitrary: w n)
     (simp_all add: format_file_def subprocess_run_def print_def fix_lines_def Let_def)

lemma print_candidates_ok:
  "list_all (prefix root) fs \<Longrightarrow>
   print_candidates w root fs =
     (Inr (), w\<lparr>printed := printed w @ map (\<lambda>f. ''  '' @ path_str (drop (length root) f)) fs\<rparr>)"
  by (induction fs arbitrary: w) (auto simp: print_def relative_to_def)

lemma print_candidates_frame:
  "invoked (snd (print_candidates w root fs)) = invoked w
   \<and> written (snd (print_candidates w root fs)) = written w"
  by (induction fs arbitrary: w) (auto simp: print_def split: sum.splits)

text \<open>Once the probe has found a formatter, a run is \<open>process_files\<close> from a known world.\<close>

lemma main_found:
  assumes "fst (check_clang_format e world0) = Inr cf"
  obtains vs where "list_all is_version_probe vs" and "[cf, ''--version''] \<in> set vs"
    and "main e a = process_files e a (find_project_root e) cf
           \<lparr>printed = [''Project root: '' @ path_str (find_project_root e),
                        ''Using: '' @ strip (stdout (run_proc e [cf, ''--version'']))],
            invoked = vs, written = []\<rparr>"
proof -
  let ?w1 = "print world0 (''Project root: '' @ path_str (find_project_root e))"
  from assms have f: "fst (check_clang_format e ?w1) = Inr cf"
    using check_clang_format_fst_indep [of e ?w1 world0] by simp
  from check_clang_format_found [OF f] obtain vs where
    cf: "on_path e cf" and
    w2: "snd (check_clang_format e ?w1) = ?w1\<lparr>invoked := invoked ?w1 @ vs\<rparr>" and
    vs: "list_all is_version_probe vs" by blast
  from f w2 have c: "check_clang_format e ?w1 = (Inr cf, ?w1\<lparr>invoked := invoked ?w1 @ vs\<rparr>)"
    by (metis prod.collapse)
  show ?thesis
  proof (rule that [of "vs @ [[cf, ''--version'']]"])
    show "list_all is_version_probe (vs @ [[cf, ''--version'']])"
      using vs by simp
    show "[cf, ''--version''] \<in> set (vs @ [[cf, ''--version'']])" by simp
    show "main e a = process_files e a (find_project_root e) cf
           \<lparr>printed = [''Project root: '' @ path_str (find_project_root e),
                        ''Using: '' @ strip (stdout (run_proc e [cf, ''--version'']))],
            invoked = vs @ [[cf, ''--version'']], written = []\<rparr>"
      unfolding main_def Let_def c
      using cf by (simp add: subprocess_run_def print_def world0_def)
  qed
qed

text \<open>Without a formatter the run ends in \<open>sys.exit(1)\<close> before any file is looked for.\<close>

lemma main_not_found:
  assumes "\<forall>cf. fst (check_clang_format e world0) \<noteq> Inr cf"
  shows "fst (main e a) = Inl (SystemExit 1)"
proof -
  let ?w1 = "print world0 (''Project root: '' @ path_str (find_project_root e))"
  have "fst (check_clang_format e ?w1) = fst (check_clang_format e world0)"
    by (rule check_clang_format_fst_indep)
  with assms have "fst (check_clang_format e ?w1) = Inl (SystemExit 1)"
    using probe_not_Inl [of e ?w1 CLANG_FORMAT_NAMES]
    by (auto simp: check_clang_format_def split: prod.splits sum.splits option.splits)
  then show ?thesis
    by (auto simp: main_def Let_def split: prod.splits sum.splits)
qed

text \<open>
  Claim C1, as amended. In a run with \<open>--check\<close> and without \<open>--dry-run\<close> in which the
  probe finds a formatter \<open>cf\<close>, the exit status is 1 if the check command returns a
  non-zero code for at least one file of the processing list and 0 otherwise; the only
  processes started are version probes followed by one check command
  (\<open>--style=file --dry-run --Werror\<close>) per file, in order, never the in-place command, and
  the driver writes no file itself.
\<close>

theorem check_mode_exit_status:
  assumes "check a" and "\<not> dry_run a" and "fst (check_clang_format e world0) = Inr cf"
  shows "exit_status (fst (main e a)) =
           (if list_ex (needs_fmt e cf) (select_files e a (find_project_root e)) then 1 else 0)
         \<and> (\<exists>vs. list_all is_version_probe vs
                \<and> invoked (snd (main e a)) =
                    vs @ map (check_argv cf) (select_files e a (find_project_root e)))
         \<and> written (snd (main e a)) = []"
proof -
  from check_clang_format_found [OF assms(3)] have cf: "on_path e cf" by simp
  obtain vs where vs: "list_all is_version_probe vs"
    and m: "main e a = process_files e a (find_project_root e) cf
           \<lparr>printed = [''Project root: '' @ path_str (find_project_root e),
                        ''Using: '' @ strip (stdout (run_proc e [cf, ''--version'']))],
            invoked = vs, written = []\<rparr>"
    by (rule main_found [OF assms(3)])
  let ?fs = "select_files e a (find_project_root e)"
  have len: "(0 < length (filter (needs_fmt e cf) ?fs)) = list_ex (needs_fmt e cf) ?fs"
    by (auto simp: filter_empty_conv list_ex_iff)
  have 1: "exit_status (fst (main e a)) = (if list_ex (needs_fmt e cf) ?fs then 1 else 0)"
    using assms(1,2) len by (simp add: m process_files_def Let_def format_all_check [OF cf])
  have 2: "invoked (snd (main e a)) = vs @ map (check_argv cf) ?fs"
    using assms(1,2) by (simp add: m process_files_def Let_def format_all_check [OF cf] print_def)
  have 3: "written (snd (main e a)) = []"
    using assms(1,2) by (simp add: m process_files_def Let_def format_all_check [OF cf] print_def)
  from 1 2 3 vs show ?thesis by blast
qed

text \<open>
  Claim C2. In a run without \<open>--check\<close> and without \<open>--dry-run\<close> in which the probe finds
  a formatter (a run that reaches the processing of the files), \<open>main\<close> returns 0 whatever
  the in-place command returns for the files; every file of the processing list gets its
  in-place command, in order, and a file whose command returns a non-zero code adds one
  line with the command's error text to the output and nothing else.
\<close>

theorem fix_mode_exit_status:
  assumes "\<not> check a" and "\<not> dry_run a" and "fst (check_clang_format e world0) = Inr cf"
  shows "fst (main e a) = Inr 0
         \<and> (\<exists>vs. list_all is_version_probe vs
                \<and> invoked (snd (main e a)) =
                    vs @ map (fix_argv cf) (select_files e a (find_project_root e)))
         \<and> printed (snd (main e a)) =
             prelude e a cf
             @ concat (map (fix_lines e cf (verbose a)) (select_files e a (find_project_root e)))
             @ [''\<newline>Formatted ''
                @ str_of_nat (length (select_files e a (find_project_root e))) @ '' files.'']"
proof -
  from check_clang_format_found [OF assms(3)] have cf: "on_path e cf" by simp
  obtain vs where vs: "list_all is_version_probe vs"
    and m: "main e a = process_files e a (find_project_root e) cf
           \<lparr>printed = [''Project root: '' @ path_str (find_project_root e),
                        ''Using: '' @ strip (stdout (run_proc e [cf, ''--version'']))],
            invoked = vs, written = []\<rparr>"
    by (rule main_found [OF assms(3)])
  let ?fs = "select_files e a (find_project_root e)"
  have 1: "fst (main e a) = Inr 0"
    using assms(1,2) by (simp add: m process_files_def Let_def format_all_fix [OF cf])
  have 2: "invoked (snd (main e a)) = vs @ map (fix_argv cf) ?fs"
    using assms(1,2) by (simp add: m process_files_def Let_def format_all_fix [OF cf] print_def)
  have 3: "printed (snd (main e a)) =
             prelude e a cf @ concat (map (fix_lines e cf (verbose a)) ?fs)
             @ [''\<newline>Formatted '' @ str_of_nat (length ?fs) @ '' files.'']"
    using assms(1,2)
    by (simp add: m process_files_def Let_def format_all_fix [OF cf] print_def prelude_def)
  from 1 2 3 vs show ?thesis by blast
qed

text \<open>
  Claim C5, as amended. In a run with \<open>--dry-run\<close> in which the probe finds a formatter
  \<open>cf\<close>, the processes started are version probes only, \<open>cf --version\<close> among them, and no
  command is run on any file; the driver writes nothing; and when every file of the
  processing list lies under the project root the list is printed, relative to the root,
  and \<open>main\<close> returns 0 (otherwise \<open>relative_to\<close> raises \<open>ValueError\<close>).
\<close>

theorem dry_run_probes_only:
  assumes "dry_run a" and "fst (check_clang_format e world0) = Inr cf"
  shows "list_all is_version_probe (invoked (snd (main e a)))
         \<and> [cf, ''--version''] \<in> set (invoked (snd (main e a)))
         \<and> written (snd (main e a)) = []
         \<and> (if list_all (prefix (find_project_root e)) (select_files e a (find_project_root e))
            then fst (main e a) = Inr 0
               \<and> printed (snd (main e a)) =
                   prelude e a cf @ [''\<newline>Files that would be formatted:'']
                   @ map (\<lambda>f. ''  '' @ path_str (drop (length (find_project_root e)) f))
                         (select_files e a (find_project_root e))
            else fst (main e a) = Inl ValueError)"
proof -
  obtain vs where vs: "list_all is_version_probe vs" "[cf, ''--version''] \<in> set vs"
    and m: "main e a = process_files e a (find_project_root e) cf
           \<lparr>printed = [''Project root: '' @ path_str (find_project_root e),
                        ''Using: '' @ strip (stdout (run_proc e [cf, ''--version'']))],
            invoked = vs, written = []\<rparr>"
    by (rule main_found [OF assms(2)])
  let ?fs = "select_files e a (find_project_root e)"
  let ?r = "find_project_root e"
  let ?w = "print (print \<lparr>printed = [''Project root: '' @ path_str ?r,
                        ''Using: '' @ strip (stdout (run_proc e [cf, ''--version'']))],
            invoked = vs, written = []\<rparr> (''Found '' @ str_of_nat (length ?fs) @ '' C++ files''))
            ''\<newline>Files that would be formatted:''"
  have s: "snd (main e a) = snd (print_candidates ?w ?r ?fs)"
    using assms(1) by (simp add: m process_files_def Let_def split: prod.splits sum.splits)
  have 1: "invoked (snd (main e a)) = vs" "written (snd (main e a)) = []"
    using print_candidates_frame [of ?w ?r ?fs] by (simp_all add: s print_def)
  have 2: "fst (main e a) = Inr 0 \<and> printed (snd (main e a)) =
        prelude e a cf @ [''\<newline>Files that would be formatted:'']
        @ map (\<lambda>f. ''  '' @ path_str (drop (length ?r) f)) ?fs"
    if "list_all (prefix ?r) ?fs"
    using assms(1) print_candidates_ok [OF that, of ?w]
    by (simp add: m process_files_def Let_def print_def prelude_def)
  have 3: "fst (main e a) = Inl ValueError" if "\<not> list_all (prefix ?r) ?fs"
  proof -
    have "fst (print_candidates w ?r fs) = Inl ValueError" if "\<not> list_all (prefix ?r) fs" for w fs
      using that by (induction fs arbitrary: w) (auto simp: relative_to_def)
    from this [OF that, of ?w] obtain w6 where "print_candidates ?w ?r ?fs = (Inl ValueError, w6)"
      by (metis prod.collapse)
    then show ?thesis
      using assms(1) by (simp add: m process_files_def Let_def)
  qed
  from 1 2 3 vs show ?thesis by simp
qed

theorem check_mode_exit_status_witness:
  "check (args_demo\<lparr>check := True\<rparr>) \<and> \<not> dry_run (args_demo\<lparr>check := True\<rparr>)
   \<and> fst (check_clang_format env_demo world0) = Inr ''clang-format''
   \<and> select_files env_demo (args_demo\<lparr>check := True\<rparr>) (find_project_root env_demo)
       = [[''/'', ''proj'', ''src'', ''a.h''], [''/'', ''proj'', ''src'', ''b.cpp'']]
   \<and> \<not> needs_fmt env_demo ''clang-format'' [''/'', ''proj'', ''src'', ''a.h'']
   \<and> needs_fmt env_demo ''clang-format'' [''/'', ''proj'', ''src'', ''b.cpp'']
   \<and> exit_status (fst (main env_demo (args_demo\<lparr>check := True\<rparr>))) = 1
   \<and> written (snd (main env_demo (args_demo\<lparr>check := True\<rparr>))) = []"
proof -
  let ?a = "args_demo\<lparr>check := True\<rparr>"
  have h1: "check ?a" and h2: "\<not> dry_run ?a" by (simp_all add: args_demo_def)
  have h3: "fst (check_clang_format env_demo world0) = Inr ''clang-format''" by code_simp
  have fs: "select_files env_demo ?a (find_project_root env_demo)
       = [[''/'', ''proj'', ''src'', ''a.h''], [''/'', ''proj'', ''src'', ''b.cpp'']]" by code_simp
  have n1: "\<not> needs_fmt env_demo ''clang-format'' [''/'', ''proj'', ''src'', ''a.h'']" by code_simp
  have n2: "needs_fmt env_demo ''clang-format'' [''/'', ''proj'', ''src'', ''b.cpp'']" by code_simp
  from check_mode_exit_status [OF h1 h2 h3] h1 h2 h3 fs n1 n2 show ?thesis by simp
qed

text \<open>
  Claim C1 as stated fails where no formatter is installed: the run with \<open>--check\<close> ends
  with status 1 although no file was discovered, so none requires reformatting.
\<close>

theorem check_mode_without_formatter_counterexample:
  "check (args_demo\<lparr>check := True\<rparr>)
   \<and> select_files env_bare (args_demo\<lparr>check := True\<rparr>) (find_project_root env_bare) = []
   \<and> exit_status (fst (main env_bare (args_demo\<lparr>check := True\<rparr>))) = 1"
  by code_simp

theorem fix_mode_exit_status_witness:
  "\<not> check args_demo \<and> \<not> dry_run args_demo
   \<and> fst (check_clang_format env_demo world0) = Inr ''clang-format''
   \<and> returncode (run_proc env_demo
         (fix_argv ''clang-format'' [''/'', ''proj'', ''src'', ''a.h''])) = 1
   \<and> returncode (run_proc env_demo
         (fix_argv ''clang-format'' [''/'', ''proj'', ''src'', ''b.cpp''])) = 1
   \<and> fst (main env_demo args_demo) = Inr 0
   \<and> printed (snd (main env_demo args_demo)) =
       [''Project root: /proj'', ''Using: clang-format version 17.0.6'', ''Found 2 C++ files'',
        ''Error formatting /proj/src/a.h: cannot format'',
        ''Error formatting /proj/src/b.cpp: cannot format'',
        ''\<newline>Formatted 2 files.'']"
proof -
  have h1: "\<not> check args_demo" and h2: "\<not> dry_run args_demo" by (simp_all add: args_demo_def)
  have h3: "fst (check_clang_format env_demo world0) = Inr ''clang-format''" by code_simp
  have fs: "select_files env_demo args_demo (find_project_root env_demo)
       = [[''/'', ''proj'', ''src'', ''a.h''], [''/'', ''proj'', ''src'', ''b.cpp'']]" by code_simp
  have r1: "returncode (run_proc env_demo
         (fix_argv ''clang-format'' [''/'', ''proj'', ''src'', ''a.h''])) = 1" by code_simp
  have r2: "returncode (run_proc env_demo
         (fix_argv ''clang-format'' [''/'', ''proj'', ''src'', ''b.cpp''])) = 1" by code_simp
  have p: "prelude env_demo args_demo ''clang-format'' =
       [''Project root: /proj'', ''Using: clang-format version 17.0.6'', ''Found 2 C++ files'']"
    by code_simp
  have l1: "fix_lines env_demo ''clang-format'' (verbose args_demo) [''/'', ''proj'', ''src'', ''a.h'']
        = [''Error formatting /proj/src/a.h: cannot format'']" by code_simp
  have l2: "fix_lines env_demo ''clang-format'' (verbose args_demo) [''/'', ''proj'', ''src'', ''b.cpp'']
        = [''Error formatting /proj/src/b.cpp: cannot format'']" by code_simp
  have n: "str_of_nat (Suc (Suc 0)) = ''2''" by code_simp
  from fix_mode_exit_status [OF h1 h2 h3] h1 h2 h3 r1 r2 show ?thesis
    by (simp add: fs p l1 l2 n)
qed

theorem dry_run_probes_only_witness:
  "dry_run (args_demo\<lparr>dry_run := True\<rparr>)
   \<and> fst (check_clang_format env_demo world0) = Inr ''clang-format''
   \<and> list_all is_version_probe (invoked (snd (main env_demo (args_demo\<lparr>dry_run := True\<rparr>))))
   \<and> fst (main env_demo (args_demo\<lparr>dry_run := True\<rparr>)) = Inr 0
   \<and> printed (snd (main env_demo (args_demo\<lparr>dry_run := True\<rparr>))) =
       [''Project root: /proj'', ''Using: clang-format version 17.0.6'', ''Found 2 C++ files'',
        ''\<newline>Files that would be formatted:'', ''  src/a.h'', ''  src/b.cpp'']"
proof -
  let ?a = "args_demo\<lparr>dry_run := True\<rparr>"
  have h1: "dry_run ?a" by simp
  have h2: "fst (check_clang_format env_demo world0) = Inr ''clang-format''" by code_simp
  have r: "find_project_root env_demo = [''/'', ''proj'']" by code_simp
  have fs: "select_files env_demo ?a [''/'', ''proj'']
       = [[''/'', ''proj'', ''src'', ''a.h''], [''/'', ''proj'', ''src'', ''b.cpp'']]" by code_simp
  have p: "prelude env_demo ?a ''clang-format'' =
       [''Project root: /proj'', ''Using: clang-format version 17.0.6'', ''Found 2 C++ files'']"
    by code_simp
  have s1: "path_str [''src'', ''a.h''] = ''src/a.h''" and s2: "path_str [''src'', ''b.cpp''] = ''src/b.cpp''"
    by code_simp+
  from dry_run_probes_only [OF h1 h2] h1 h2 show ?thesis
    by (simp add: r fs p s1 s2)
qed

text \<open>
  Claim C5 as stated fails: a run with \<open>--dry-run\<close> starts the formatter twice with
  \<open>--version\<close>, once in the probe and once for the version line.
\<close>

theorem dry_run_probes_version_counterexample:
  "dry_run (args_demo\<lparr>dry_run := True\<rparr>)
   \<and> invoked (snd (main env_demo (args_demo\<lparr>dry_run := True\<rparr>))) =
       [[''clang-format'', ''--version''], [''clang-format'', ''--version'']]"
  by code_simp

section \<open>Positional arguments\<close>





section \<open>File discovery\<close>

lemma skipped_iff: "skipped p \<longleftrightarrow> set p \<inter> SKIP_DIRS \<noteq> {}"
  by (auto simp: skipped_def)

text \<open>
  Claim C4. \<open>find_cpp_files\<close> returns exactly the paths of the enumeration of the tree
  that are regular files, have an extension of \<open>CPP_EXTENSIONS\<close> and have no component in
  \<open>SKIP_DIRS\<close>; the list is sorted (paths compare component by component, components as
  strings), it has no duplicates when the enumeration yields each path once, and a path
  with a component of \<open>SKIP_DIRS\<close> is never in it, whatever its extension.
\<close>

theorem find_cpp_files_exact:
  "set (find_cpp_files e root) =
     {p \<in> set (rglob e root). is_file e p \<and> suffix_of p \<in> CPP_EXTENSIONS \<and> set p \<inter> SKIP_DIRS = {}}
   \<and> sorted (find_cpp_files e root)
   \<and> (distinct (rglob e root) \<longrightarrow> distinct (find_cpp_files e root))
   \<and> (\<forall>p. set p \<inter> SKIP_DIRS \<noteq> {} \<longrightarrow> p \<notin> set (find_cpp_files e root))"
proof (intro conjI allI impI)
  show "set (find_cpp_files e root) =
     {p \<in> set (rglob e root). is_file e p \<and> suffix_of p \<in> CPP_EXTENSIONS \<and> set p \<inter> SKIP_DIRS = {}}"
    by (auto simp: find_cpp_files_def skipped_iff)
  show "sorted (find_cpp_files e root)"
    by (simp add: find_cpp_files_def)
  show "distinct (find_cpp_files e root)" if "distinct (rglob e root)"
    using that by (simp add: find_cpp_files_def)
  show "p \<notin> set (find_cpp_files e root)" if "set p \<inter> SKIP_DIRS \<noteq> {}" for p
    using that by (simp add: find_cpp_files_def skipped_iff)
qed

theorem find_cpp_files_exact_witness:
  "distinct (rglob env_demo [''/'', ''proj''])
   \<and> is_file env_demo [''/'', ''proj'', ''build'', ''gen.cpp'']
   \<and> set [''/'', ''proj'', ''build'', ''gen.cpp''] \<inter> SKIP_DIRS \<noteq> {}
   \<and> find_cpp_files env_demo [''/'', ''proj'']
       = [[''/'', ''proj'', ''src'', ''a.h''], [''/'', ''proj'', ''src'', ''b.cpp'']]
   \<and> sorted (find_cpp_files env_demo [''/'', ''proj''])
   \<and> distinct (find_cpp_files env_demo [''/'', ''proj''])
   \<and> [''/'', ''proj'', ''build'', ''gen.cpp''] \<notin> set (find_cpp_files env_demo [''/'', ''proj''])"
proof -
  have d: "distinct (rglob env_demo [''/'', ''proj''])" by code_simp
  have f: "is_file env_demo [''/'', ''proj'', ''build'', ''gen.cpp'']" by code_simp
  have s: "set [''/'', ''proj'', ''build'', ''gen.cpp''] \<inter> SKIP_DIRS \<noteq> {}"
    by (simp add: SKIP_DIRS_def)
  have v: "find_cpp_files env_demo [''/'', ''proj'']
       = [[''/'', ''proj'', ''src'', ''a.h''], [''/'', ''proj'', ''src'', ''b.cpp'']]" by code_simp
  from find_cpp_files_exact [of env_demo "[''/'', ''proj'']"] d s
  have "sorted (find_cpp_files env_demo [''/'', ''proj''])"
    and "distinct (find_cpp_files env_demo [''/'', ''proj''])"
    and "[''/'', ''proj'', ''build'', ''gen.cpp''] \<notin> set (find_cpp_files env_demo [''/'', ''proj''])"
    by blast+
  with d f s v show ?thesis by blast
qed

section \<open>The project locator\<close>

lemma parent_fixed: "parent p = p \<Longrightarrow> (parent ^^ n) p = p"
  by (induction n) simp_all

lemma walk_up_Some:
  "walk_up e p = Some d \<Longrightarrow>
     \<exists>n. d = (parent ^^ n) p \<and> d \<noteq> parent d \<and> path_exists e (d @ [''CMakeLists.txt''])
        \<and> (\<forall>k<n. \<not> path_exists e ((parent ^^ k) p @ [''CMakeLists.txt'']))"
proof (induction e p rule: walk_up.induct)
  case (1 e current)
  show ?case
  proof (cases "current \<noteq> parent current \<and> \<not> path_exists e (current @ [''CMakeLists.txt''])")
    case False
    with "1.prems" have "d = current" "current \<noteq> parent current"
      "path_exists e (current @ [''CMakeLists.txt''])"
      by (auto simp: walk_up.simps [of e current] split: if_splits)
    then show ?thesis by (intro exI [of _ 0]) simp
  next
    case True
    with "1.prems" have "walk_up e (parent current) = Some d"
      by (simp add: walk_up.simps [of e current])
    with "1.IH" True obtain n where n: "d = (parent ^^ n) (parent current)" "d \<noteq> parent d"
      "path_exists e (d @ [''CMakeLists.txt''])"
      "\<forall>k<n. \<not> path_exists e ((parent ^^ k) (parent current) @ [''CMakeLists.txt''])"
      by blast
    have "\<not> path_exists e ((parent ^^ k) current @ [''CMakeLists.txt''])" if "k < Suc n" for k
    proof (cases k)
      case 0
      with True show ?thesis by simp
    next
      case (Suc j)
      with that n(4) show ?thesis by (simp add: funpow_swap1)
    qed
    with n show ?thesis
      by (intro exI [of _ "Suc n"]) (simp add: funpow_swap1)
  qed
qed

lemma walk_up_None:
  "walk_up e p = None \<Longrightarrow> (parent ^^ n) p \<noteq> parent ((parent ^^ n) p) \<Longrightarrow>
     \<not> path_exists e ((parent ^^ n) p @ [''CMakeLists.txt''])"
proof (induction e p arbitrary: n rule: walk_up.induct)
  case (1 e current)
  show ?case
  proof (cases "current = parent current")
    case True
    then have "(parent ^^ n) current = current" by (simp add: parent_fixed)
    with "1.prems"(2) True show ?thesis by simp
  next
    case False
    with "1.prems"(1) have m: "\<not> path_exists e (current @ [''CMakeLists.txt''])"
      and r: "walk_up e (parent current) = None"
      by (auto simp: walk_up.simps [of e current] split: if_splits)
    show ?thesis
    proof (cases n)
      case 0
      with m show ?thesis by simp
    next
      case (Suc j)
      with "1.IH" [OF False m r, of j] "1.prems"(2) show ?thesis
        by (simp add: funpow_swap1)
    qed
  qed
qed

text \<open>
  What the locator computes: with \<open>d\<^sub>0\<close> the script's directory and \<open>d\<^sub>n\<^sub>+\<^sub>1\<close> the parent of
  \<open>d\<^sub>n\<close>, the first \<open>d\<^sub>n\<close> that holds the marker among those that are not their own parent;
  the working directory when there is none. The directory that is its own parent, the
  filesystem root, is never looked into.
\<close>

lemma find_project_root_nearest:
  "(\<exists>n. find_project_root e = (parent ^^ n) (script_dir e)
        \<and> find_project_root e \<noteq> parent (find_project_root e)
        \<and> path_exists e (find_project_root e @ [''CMakeLists.txt''])
        \<and> (\<forall>k<n. \<not> path_exists e ((parent ^^ k) (script_dir e) @ [''CMakeLists.txt''])))
   \<or> (find_project_root e = cwd e
        \<and> (\<forall>n. (parent ^^ n) (script_dir e) \<noteq> parent ((parent ^^ n) (script_dir e)) \<longrightarrow>
                 \<not> path_exists e ((parent ^^ n) (script_dir e) @ [''CMakeLists.txt''])))"
proof (cases "walk_up e (script_dir e)")
  case None
  then show ?thesis
    using walk_up_None [of e "script_dir e"] by (simp add: find_project_root_def)
next
  case (Some d)
  then show ?thesis
    using walk_up_Some [of e "script_dir e" d] by (simp add: find_project_root_def)
qed

text \<open>
  Claim C8 at the input where the code departs from it: the script is in \<open>/tools\<close>, the
  marker file is in the filesystem root, its parent, and only there; the locator returns the
  working directory \<open>/home\<close>, not the root.
\<close>

theorem find_project_root_skips_root:
  "script_dir env_rootmarker = [''/'', ''tools'']
   \<and> parent (script_dir env_rootmarker) = [''/'']
   \<and> path_exists env_rootmarker ([''/''] @ [''CMakeLists.txt''])
   \<and> cwd env_rootmarker = [''/'', ''home'']
   \<and> find_project_root env_rootmarker = [''/'', ''home'']"
  by code_simp

section \<open>The doc extractor\<close>

lemma eval_name_z: "eval_name ''z'' = Inl (NameError ''z'')"
  by (simp add: eval_name_def bound_names_def)

lemma generate_docs_raises:
  "path_exists e (project_root @ [''include'', ''Zyrnix'']) \<Longrightarrow>
   fst (generate_docs e w project_root output_dir) = Inl (NameError ''z'')"
  by (simp add: generate_docs_def Let_def eval_name_z)


lemma class_of_match_methods [simp]: "methods (class_of_match content m) = []"
  by (simp add: class_of_match_def Let_def)

text \<open>
  Claim C9. Every class of the header that \<open>parse_header\<close> returns has an empty list of
  methods, and \<open>generate_class_doc\<close> of it consists of the heading, the description (if any)
  and the line of base classes (if any): the part that starts with \<open>#### Methods\<close> is never
  produced.
\<close>

theorem parsed_classes_have_no_methods:
  "\<forall>c \<in> set (classes (fst (parse_header e w filepath))).
     methods c = []
     \<and> generate_class_doc c =
         join ''\<newline>''
           ([''### `'' @ (if is_struct c then ''struct'' else ''class'') @ '' '' @ name c @ ''`'', []]
            @ (if description c \<noteq> [] then [description c, []] else [])
            @ (if base_classes c \<noteq> []
               then [''**Inherits from:** `'' @ join ''`, `'' (base_classes c) @ ''`'', []]
               else []))"
proof
  fix c
  assume "c \<in> set (classes (fst (parse_header e w filepath)))"
  then have "methods c = []"
    by (auto simp: parse_header_def parse_content_def split: sum.splits)
  then show "methods c = []
     \<and> generate_class_doc c =
         join ''\<newline>''
           ([''### `'' @ (if is_struct c then ''struct'' else ''class'') @ '' '' @ name c @ ''`'', []]
            @ (if description c \<noteq> [] then [description c, []] else [])
            @ (if base_classes c \<noteq> []
               then [''**Inherits from:** `'' @ join ''`, `'' (base_classes c) @ ''`'', []]
               else []))"
    by (simp add: generate_class_doc_def)
qed

theorem parsed_classes_have_no_methods_witness:
  "classes (fst (parse_header env_docs world0 [''/'', ''proj'', ''include'', ''Zyrnix'', ''point.hpp'']))
     = [\<lparr>name = ''Point'', description = ''A 2D point.'', methods = [],
         base_classes = [''Shape''], is_struct = True\<rparr>]
   \<and> generate_class_doc \<lparr>name = ''Point'', description = ''A 2D point.'', methods = [],
         base_classes = [''Shape''], is_struct = True\<rparr>
     = ''### `struct Point`\<newline>\<newline>A 2D point.\<newline>\<newline>**Inherits from:** `Shape`\<newline>''"
proof -
  let ?c = "\<lparr>name = ''Point'', description = ''A 2D point.'', methods = [],
         base_classes = [''Shape''], is_struct = True\<rparr>"
  let ?p = "[''/'', ''proj'', ''include'', ''Zyrnix'', ''point.hpp'']"
  have v: "classes (fst (parse_header env_docs world0 ?p)) = [?c]" by code_simp
  then have "?c \<in> set (classes (fst (parse_header env_docs world0 ?p)))" by simp
  from parsed_classes_have_no_methods [of env_docs world0 ?p, THEN bspec, OF this] v
  show ?thesis by simp
qed

section \<open>Facts about the matcher\<close>

lemma take_within_takeWhile:
  "k \<le> length (takeWhile P xs) \<Longrightarrow> \<forall>c\<in>set (take k xs). P c"
proof (induction xs arbitrary: k)
  case Nil
  then show ?case by simp
next
  case (Cons x xs)
  then show ?case by (cases k) (auto split: if_splits)
qed

lemma rmatch_consumes:
  "st' \<in> set (rmatch r st) \<Longrightarrow>
     \<exists>n. n \<le> length (rest st) \<and> pos st' = pos st + n \<and> rest st' = drop n (rest st)
        \<and> (\<forall>c\<in>set (take n (rest st)). consumes r c)"
proof (induction r arbitrary: st st')
  case (Lit s)
  then have p: "prefix s (rest st)" and e: "st' = advance (length s) st"
    by (auto split: if_splits)
  from p have "take (length s) (rest st) = s" "length s \<le> length (rest st)"
    by (auto simp: prefix_def)
  with e show ?case
    by (intro exI [of _ "length s"]) (simp add: advance_def)
next
  case (Rep cc lo hi greedy)
  then obtain k where k: "st' = advance k st" "k \<le> length (takeWhile (in_class cc) (rest st))"
    by (auto simp: Let_def split: option.splits if_splits)
  from k(2) have "k \<le> length (rest st)"
    using length_takeWhile_le [of "in_class cc" "rest st"] by linarith
  with k take_within_takeWhile [OF k(2)] show ?case
    by (intro exI [of _ k]) (simp add: advance_def)
next
  case (Alt a b)
  then show ?case by fastforce
next
  case (Seq a b)
  then obtain st1 where 1: "st1 \<in> set (rmatch a st)" and 2: "st' \<in> set (rmatch b st1)"
    by auto
  from Seq.IH(1) [OF 1] obtain n1 where n1: "n1 \<le> length (rest st)" "pos st1 = pos st + n1"
    "rest st1 = drop n1 (rest st)" "\<forall>c\<in>set (take n1 (rest st)). consumes a c" by blast
  from Seq.IH(2) [OF 2] obtain n2 where n2: "n2 \<le> length (rest st1)" "pos st' = pos st1 + n2"
    "rest st' = drop n2 (rest st1)" "\<forall>c\<in>set (take n2 (rest st1)). consumes b c" by blast
  have "take (n1 + n2) (rest st) = take n1 (rest st) @ take n2 (drop n1 (rest st))"
    by (simp add: take_add)
  with n1 n2 show ?case
    by (intro exI [of _ "n1 + n2"]) (auto simp: add.commute)
next
  case (Group n r)
  then obtain st1 where 1: "st1 \<in> set (rmatch r st)"
    and e: "st' = st1\<lparr>groups := (groups st1)(n \<mapsto> take (pos st1 - pos st) (rest st))\<rparr>"
    by auto
  from Group.IH [OF 1] e show ?case by simp
next
  case (Opt r)
  then consider "st' \<in> set (rmatch r st)" | "st' = st" by auto
  then show ?case
  proof cases
    case 1
    from Opt.IH [OF 1] show ?thesis by simp
  next
    case 2
    then show ?thesis by (intro exI [of _ 0]) simp
  qed
next
  case Bol
  then show ?case by (intro exI [of _ 0]) (auto split: if_splits)
next
  case Eol
  then show ?case by (intro exI [of _ 0]) (auto split: if_splits)
qed

lemma match_at_Some_in:
  "match_at r p s = Some st \<Longrightarrow> st \<in> set (rmatch r \<lparr>pos = p, rest = s, groups = Map.empty\<rparr>)"
  by (auto simp: match_at_def split: list.splits)

text \<open>A match that begins before a character the pattern cannot pass over ends before it.\<close>

lemma match_at_stops:
  assumes "match_at r p (u @ c0 # w) = Some st" and "\<not> consumes r c0"
  shows "pos st \<le> p + length u"
proof -
  from rmatch_consumes [OF match_at_Some_in [OF assms(1)]] obtain n where
    n: "pos st = p + n" "\<forall>c\<in>set (take n (u @ c0 # w)). consumes r c" by auto
  have "n \<le> length u"
  proof (rule ccontr)
    assume "\<not> n \<le> length u"
    then obtain m where "n = Suc (length u + m)"
      by (metis add_Suc_right less_imp_Suc_add not_le)
    then have "c0 \<in> set (take n (u @ c0 # w))" by simp
    with n(2) assms(2) show False by blast
  qed
  with n(1) show ?thesis by simp
qed

lemma finditer_from_past:
  assumes "\<not> consumes r c0"
  shows "k \<le> length u \<Longrightarrow>
     set (finditer_from r (p + length u) 0 (c0 # w)) \<subseteq> set (finditer_from r p k (u @ c0 # w))"
proof (induction u arbitrary: p k)
  case Nil
  then show ?case by simp
next
  case (Cons x xs)
  show ?case
  proof (cases "0 < k")
    case True
    with Cons.prems have "k - 1 \<le> length xs" by simp
    from Cons.IH [OF this, of "Suc p"] True show ?thesis by simp
  next
    case False
    show ?thesis
    proof (cases "match_at r p ((x # xs) @ c0 # w)")
      case None
      with Cons.IH [of 0 "Suc p"] False show ?thesis by simp
    next
      case (Some st)
      from match_at_stops [OF Some assms] have "pos st - p - 1 \<le> length xs" by simp
      from Cons.IH [OF this, of "Suc p"] Some False show ?thesis by auto
    qed
  qed
qed

lemma class_pattern_slash: "\<not> consumes class_pattern CHR ''/''"
  by (simp add: class_pattern_def is_space_def is_word_def)

lemma match_at_class_None:
  "\<not> prefix ''class'' s \<Longrightarrow> \<not> prefix ''struct'' s \<Longrightarrow> match_at class_pattern p s = None"
  by (simp add: match_at_def class_pattern_def)

lemma match_struct_Point:
  "match_at class_pattern q (''struct Point {'' @ post) =
     Some \<lparr>pos = q + 14, rest = post, groups = [1 \<mapsto> ''struct'', 2 \<mapsto> ''Point'']\<rparr>"
  by (simp add: match_at_def class_pattern_def is_space_def is_word_def advance_def Let_def)


lemma finditer_from_no_keyword:
  "(\<forall>i<length u. \<not> prefix ''class'' (drop i (u @ w)) \<and> \<not> prefix ''struct'' (drop i (u @ w))) \<Longrightarrow>
   finditer_from class_pattern p 0 (u @ w) = finditer_from class_pattern (p + length u) 0 w"
proof (induction u arbitrary: p)
  case Nil
  then show ?case by simp
next
  case (Cons x xs)
  from Cons.prems [rule_format, of 0]
  have "match_at class_pattern p (x # xs @ w) = None"
    by (simp add: match_at_class_None)
  moreover have "\<forall>i<length xs. \<not> prefix ''class'' (drop i (xs @ w)) \<and> \<not> prefix ''struct'' (drop i (xs @ w))"
  proof (intro allI impI)
    fix i assume "i < length xs"
    with Cons.prems [rule_format, of "Suc i"]
    show "\<not> prefix ''class'' (drop i (xs @ w)) \<and> \<not> prefix ''struct'' (drop i (xs @ w))" by simp
  qed
  ultimately show ?case using Cons.IH [of "Suc p"] by simp
qed

lemma finditer_struct_Point:
  "\<exists>tl. finditer_from class_pattern q 0 (''struct Point {'' @ post) =
     (q, \<lparr>pos = q + 14, rest = post, groups = [1 \<mapsto> ''struct'', 2 \<mapsto> ''Point'']\<rparr>) # tl"
  using match_struct_Point [of q post] by simp


lemma length_three_lines: "length three_lines = 48"
  by (simp add: three_lines_def)

lemma scan_three_lines:
  "\<exists>tl. finditer_from class_pattern p 0 (three_lines @ ''struct Point {'' @ post) =
     (p + 48, \<lparr>pos = p + 62, rest = post, groups = [1 \<mapsto> ''struct'', 2 \<mapsto> ''Point'']\<rparr>) # tl"
proof -
  have "finditer_from class_pattern p 0 (three_lines @ ''struct Point {'' @ post)
      = finditer_from class_pattern (p + length three_lines) 0 (''struct Point {'' @ post)"
    by (rule finditer_from_no_keyword) (simp add: three_lines_def less_Suc_eq)
  with finditer_struct_Point [of "p + 48" post] show ?thesis
    by (simp only: length_three_lines) (simp add: add.assoc)
qed

lemma split_not_Nil [simp]: "split c xs \<noteq> []"
  by (induction xs) (auto split: list.splits)

lemma split_append_sep: "split c (xs @ c # ys) = split c xs @ split c ys"
proof (induction xs)
  case Nil
  then show ?case by simp
next
  case (Cons x xs)
  then show ?case by (cases "split c xs") auto
qed

lemma comment_lines_stop:
  "\<not> comment_line l \<Longrightarrow> comment_lines (l # ls) acc = acc"
  by (auto simp: comment_line_def Let_def prefix_def)

lemma doc_line:
  "comment_lines (''/// A 2D point.'' # ls) acc = comment_lines ls (''A 2D point.'' # acc)"
proof -
  have "strip ''/// A 2D point.'' = ''/// A 2D point.''" by code_simp
  moreover have "strip (drop 3 ''/// A 2D point.'') = ''A 2D point.''" by code_simp
  ultimately show ?thesis by (simp add: Let_def)
qed

lemma three_lines_eq: "three_lines = three_doc_lines @ ''\<newline>''"
  by (simp add: three_lines_def three_doc_lines_def)

lemma split_three_doc_lines:
  "split CHR ''\<newline>'' three_doc_lines = [''/// A 2D point.'', ''/// A 2D point.'', ''/// A 2D point.'']"
  by code_simp

lemma rstrip_three_lines: "rstrip (pre @ three_lines) = pre @ three_doc_lines"
  by (simp add: rstrip_def three_lines_def three_doc_lines_def is_space_def)

lemma not_block_three_lines: "\<not> suffix ''*/'' (pre @ three_doc_lines)"
  by (simp add: suffix_to_prefix three_doc_lines_def)

lemma line_comment_three_lines:
  assumes "pre = [] \<or> (\<exists>pre'. pre = pre' @ ''\<newline>'' \<and> \<not> comment_line (last (split CHR ''\<newline>'' pre')))"
  shows "line_comment (pre @ three_doc_lines) = ''A 2D point. A 2D point. A 2D point.''"
proof -
  have "comment_lines (rev (split CHR ''\<newline>'' (pre @ three_doc_lines))) []
      = [''A 2D point.'', ''A 2D point.'', ''A 2D point.'']"
  proof (cases "pre = []")
    case True
    then show ?thesis by (simp add: split_three_doc_lines doc_line del: comment_lines.simps(2))
  next
    case False
    with assms obtain pre' where p: "pre = pre' @ ''\<newline>''"
      and n: "\<not> comment_line (last (split CHR ''\<newline>'' pre'))" by blast
    have "split CHR ''\<newline>'' (pre @ three_doc_lines)
        = split CHR ''\<newline>'' pre' @ split CHR ''\<newline>'' three_doc_lines"
      using split_append_sep [of "CHR ''\<newline>''" pre' three_doc_lines] by (simp add: p)
    moreover have "comment_lines (rev (split CHR ''\<newline>'' pre')) acc = acc" for acc
    proof -
      have r: "rev (split CHR ''\<newline>'' pre')
        = last (split CHR ''\<newline>'' pre') # rev (butlast (split CHR ''\<newline>'' pre'))"
        by (metis append_butlast_last_id rev_eq_Cons_iff rev_rev_ident split_not_Nil)
      show ?thesis unfolding r by (rule comment_lines_stop [OF n])
    qed
    ultimately show ?thesis
      by (simp add: split_three_doc_lines doc_line del: comment_lines.simps(2))
  qed
  then show ?thesis by (simp add: line_comment_def)
qed

lemma extract_three_lines:
  assumes "pre = [] \<or> (\<exists>pre'. pre = pre' @ ''\<newline>'' \<and> \<not> comment_line (last (split CHR ''\<newline>'' pre')))"
  shows "extract_doxygen_comment (pre @ three_lines @ rest') (length pre + 48)
       = ''A 2D point. A 2D point. A 2D point.''"
proof -
  have "take (length pre + 48) (pre @ three_lines @ rest') = pre @ three_lines"
    by (simp add: length_three_lines)
  then show ?thesis
    by (simp add: extract_doxygen_comment_def rstrip_three_lines not_block_three_lines
        line_comment_three_lines [OF assms] del: take_append)
qed


lemma advance_advance: "advance a (advance b st) = advance (b + a) st"
  by (simp add: advance_def add.commute add.assoc)










lemma parse_header_read:
  "read_text e filepath = Inr content \<Longrightarrow>
   fst (parse_header e w filepath) = parse_content filepath content"
  by (simp add: parse_header_def)


text \<open>
  Claim C6, as amended. For every header whose text holds \<open>struct Point {\<close> right after
  three whole lines \<open>/// A 2D point.\<close>, where the line before them (if there is one) is no
  \<open>//\<close> comment, \<open>parse_header\<close> yields a class named \<open>Point\<close> with \<open>is_struct\<close> true whose
  description is the three comment texts joined by single spaces,
  \<open>A 2D point. A 2D point. A 2D point.\<close>
\<close>

theorem struct_after_three_doc_lines:
  assumes "read_text e filepath =
      Inr (pre @ ''/// A 2D point.\<newline>/// A 2D point.\<newline>/// A 2D point.\<newline>struct Point {'' @ post)"
    and "pre = [] \<or> (\<exists>pre'. pre = pre' @ ''\<newline>''
                        \<and> \<not> comment_line (last (split CHR ''\<newline>'' pre')))"
  shows "\<exists>c \<in> set (classes (fst (parse_header e w filepath))).
           name c = ''Point'' \<and> is_struct c
         \<and> description c = ''A 2D point. A 2D point. A 2D point.''"
proof -
  let ?content = "pre @ three_lines @ ''struct Point {'' @ post"
  let ?st = "\<lparr>pos = length pre + 62, rest = post, groups = [1 \<mapsto> ''struct'', 2 \<mapsto> ''Point'']\<rparr>"
  have ceq: "pre @ ''/// A 2D point.\<newline>/// A 2D point.\<newline>/// A 2D point.\<newline>struct Point {'' @ post
      = ?content" by (simp add: three_lines_def)
  obtain w' where w': "three_lines @ ''struct Point {'' @ post = CHR ''/'' # w'"
    by (simp add: three_lines_def)
  from scan_three_lines [of "length pre" post] obtain tl where
    "finditer_from class_pattern (length pre) 0 (three_lines @ ''struct Point {'' @ post)
       = (length pre + 48, ?st) # tl" by blast
  then have "(length pre + 48, ?st)
      \<in> set (finditer_from class_pattern (0 + length pre) 0 (CHR ''/'' # w'))"
    unfolding w' by simp
  moreover have "set (finditer_from class_pattern (0 + length pre) 0 (CHR ''/'' # w'))
      \<subseteq> set (finditer_from class_pattern 0 0 (pre @ CHR ''/'' # w'))"
    by (rule finditer_from_past [OF class_pattern_slash]) simp
  ultimately have "(length pre + 48, ?st) \<in> set (finditer class_pattern ?content)"
    unfolding finditer_def w' by blast
  then have "class_of_match ?content (length pre + 48, ?st)
      \<in> set (classes (parse_content filepath ?content))"
    by (simp add: parse_content_def)
  moreover have "name (class_of_match ?content (length pre + 48, ?st)) = ''Point''"
    and "is_struct (class_of_match ?content (length pre + 48, ?st))"
    by (simp_all add: class_of_match_def group_text_def)
  moreover have "description (class_of_match ?content (length pre + 48, ?st))
      = ''A 2D point. A 2D point. A 2D point.''"
    using extract_three_lines [OF assms(2), of "''struct Point {'' @ post"]
    by (simp add: class_of_match_def)
  ultimately show ?thesis
    unfolding parse_header_read [OF assms(1)] ceq by blast
qed

theorem struct_after_three_doc_lines_witness:
  "read_text (env_text (''#pragma once\<newline>''
       @ ''/// A 2D point.\<newline>/// A 2D point.\<newline>/// A 2D point.\<newline>struct Point {''
       @ ''\<newline>  double x;\<newline>};\<newline>'')) [''point.hpp'']
     = Inr (''#pragma once\<newline>''
       @ ''/// A 2D point.\<newline>/// A 2D point.\<newline>/// A 2D point.\<newline>struct Point {''
       @ ''\<newline>  double x;\<newline>};\<newline>'')
   \<and> \<not> comment_line (last (split CHR ''\<newline>'' ''#pragma once''))
   \<and> (\<exists>c \<in> set (classes (fst (parse_header (env_text (''#pragma once\<newline>''
       @ ''/// A 2D point.\<newline>/// A 2D point.\<newline>/// A 2D point.\<newline>struct Point {''
       @ ''\<newline>  double x;\<newline>};\<newline>'')) world0 [''point.hpp'']))).
           name c = ''Point'' \<and> is_struct c
         \<and> description c = ''A 2D point. A 2D point. A 2D point.'')"
proof -
  let ?pre = "''#pragma once\<newline>''" and ?post = "''\<newline>  double x;\<newline>};\<newline>''"
  let ?e = "env_text (?pre
       @ ''/// A 2D point.\<newline>/// A 2D point.\<newline>/// A 2D point.\<newline>struct Point {'' @ ?post)"
  have h1: "read_text ?e [''point.hpp''] = Inr (?pre
       @ ''/// A 2D point.\<newline>/// A 2D point.\<newline>/// A 2D point.\<newline>struct Point {'' @ ?post)"
    by (simp add: env_text_def)
  have n: "\<not> comment_line (last (split CHR ''\<newline>'' ''#pragma once''))" by code_simp
  then have h2: "?pre = [] \<or> (\<exists>pre'. ?pre = pre' @ ''\<newline>''
                        \<and> \<not> comment_line (last (split CHR ''\<newline>'' pre')))"
    by (intro disjI2 exI [of _ "''#pragma once''"]) simp
  from struct_after_three_doc_lines [OF h1 h2, of world0] h1 n show ?thesis by blast
qed

text \<open>
  Claim C6 as stated fails on the header that is just the three comment lines and the
  declaration: no class parsed from it has the description \<open>A 2D point.\<close>
\<close>

theorem three_doc_lines_counterexample:
  "\<not> (\<exists>c \<in> set (classes (fst (parse_header
          (env_text ''/// A 2D point.\<newline>/// A 2D point.\<newline>/// A 2D point.\<newline>struct Point {\<newline>};\<newline>'')
          world0 [''point.hpp'']))).
        is_struct c \<and> description c = ''A 2D point.'')"
proof -
  have "classes (fst (parse_header
          (env_text ''/// A 2D point.\<newline>/// A 2D point.\<newline>/// A 2D point.\<newline>struct Point {\<newline>};\<newline>'')
          world0 [''point.hpp'']))
      = [\<lparr>name = ''Point'', description = ''A 2D point. A 2D point. A 2D point.'', methods = [],
          base_classes = [], is_struct = True\<rparr>]"
    by code_simp
  then show ?thesis by simp
qed




end
